theory Spec2Isabelle
  imports Main
begin

section \<open>JavaScript values\<close>

text \<open>
  Primitive values. Strict equality (\<^verbatim>\<open>===\<close>) on primitives is equality of the values, so
  it is HOL equality on \<open>atom\<close>. Numbers are the integers (no NaN, no fractions).
\<close>

datatype atom = JUndefined | JNull | JBool bool | JNum int | JStr string

text \<open>
  A value is a primitive, an array, or an object of some type \<open>'o\<close> (a result record, a rule
  function, \dots).
\<close>

datatype 'o jsval = Atom atom | Arr "'o jsval list" | Obj 'o

fun truthy_atom :: "atom \<Rightarrow> bool" where
  "truthy_atom JUndefined = False"
| "truthy_atom JNull = False"
| "truthy_atom (JBool b) = b"
| "truthy_atom (JNum n) = (n \<noteq> 0)"
| "truthy_atom (JStr s) = (s \<noteq> [])"

fun truthy :: "'o jsval \<Rightarrow> bool" where
  "truthy (Atom a) = truthy_atom a"
| "truthy (Arr xs) = True"
| "truthy (Obj x) = True"

text \<open>\<^verbatim>\<open>Array.isArray(v)\<close> and \<^verbatim>\<open>toStringFunction.call(v) === '[object Array]'\<close>.\<close>

fun isArray :: "'o jsval \<Rightarrow> bool" where
  "isArray (Arr xs) = True"
| "isArray _ = False"

text \<open>The argument list that \<^verbatim>\<open>push.apply(target, v)\<close> spreads when \<open>v\<close> is an array.\<close>

fun elements :: "'o jsval \<Rightarrow> 'o jsval list" where
  "elements (Arr xs) = xs"
| "elements _ = []"

section \<open>Documents, results, constants\<close>

record icon =
  sizes :: atom

text \<open>\<open>icons = None\<close> is a manifest without an \<^verbatim>\<open>icons\<close> member.\<close>

record manifestContent =
  icons :: "icon list option"

record 'c w3cManifestInfo =
  content :: 'c
  format :: string

record validationResult =
  description :: string
  platform :: string
  level :: string
  member_tag :: string
  code :: string
  data :: "atom list"

text \<open>
  The module \<^verbatim>\<open>../constants\<close> is required by the source but is not part of it; the values
  the code reads from it are taken as a parameter \<open>K\<close>.
\<close>

record constants =
  BASE_MANIFEST_FORMAT :: string
  manifestMembers_icons :: string
  codes_missingImage :: string
  codes_missingImageGroup :: string
  levels_warning :: string

section \<open>The rule contract\<close>

text \<open>
  What a rule function does when it is invoked as \<^verbatim>\<open>rule(content, callback)\<close>: it invokes
  the callback once with \<^verbatim>\<open>(err, ruleResult)\<close> (\<open>err = None\<close> is a falsy first argument,
  \<open>Some m\<close> an error with message \<open>m\<close>), or it never invokes it, or it throws before
  invoking it.
\<close>

datatype 'v behaviour = Calls "string option" 'v | Never | Throws string

type_synonym ('c, 'o) rule = "'c \<Rightarrow> 'o jsval behaviour"

section \<open>The icon rules\<close>

text \<open>Lines 157-161: the inner loop over the icons, updating \<^verbatim>\<open>found\<close>.\<close>

fun found_loop :: "atom \<Rightarrow> icon list \<Rightarrow> bool \<Rightarrow> bool" where
  "found_loop requiredIcon [] found = found"
| "found_loop requiredIcon (ic # rest) found =
     found_loop requiredIcon rest (if requiredIcon = sizes ic then True else found)"

text \<open>Lines 153-166: the outer loop over the required sizes, growing \<^verbatim>\<open>missingIconsSizes\<close>.\<close>

fun missing_loop :: "atom list \<Rightarrow> icon list \<Rightarrow> atom list \<Rightarrow> atom list" where
  "missing_loop [] ics missingIconsSizes = missingIconsSizes"
| "missing_loop (requiredIcon # rest) ics missingIconsSizes =
     missing_loop rest ics
       (if \<not> found_loop requiredIcon ics False
        then missingIconsSizes @ [requiredIcon] else missingIconsSizes)"

definition imageValidation ::
  "constants \<Rightarrow> manifestContent \<Rightarrow> string \<Rightarrow> string \<Rightarrow> string \<Rightarrow> atom list
     \<Rightarrow> validationResult jsval behaviour" where
  "imageValidation K manifestContent descr plat lev requiredIconSizes =
     (let result = \<lparr>description = descr, platform = plat, level = lev,
                     member_tag = manifestMembers_icons K, code = codes_missingImage K,
                     data = requiredIconSizes\<rparr>
      in case icons manifestContent of
           None \<Rightarrow> Calls None (Obj result)
         | Some ics \<Rightarrow>
             if length ics = 0 then Calls None (Obj result)
             else
               let missingIconsSizes = missing_loop requiredIconSizes ics [];
                   result' = result\<lparr>data := missingIconsSizes\<rparr>
               in if length missingIconsSizes = 0 then Calls None (Atom JUndefined)
                  else Calls None (Obj result'))"

text \<open>Lines 197-201: the inner loop over the valid sizes; \<open>True\<close> is the early return.\<close>

fun valid_loop :: "atom \<Rightarrow> atom list \<Rightarrow> bool" where
  "valid_loop iconSizes [] = False"
| "valid_loop iconSizes (v # rest) = (if iconSizes = v then True else valid_loop iconSizes rest)"

text \<open>Lines 194-202: the outer loop over the icons.\<close>

fun icons_loop :: "icon list \<Rightarrow> atom list \<Rightarrow> bool" where
  "icons_loop [] validIconSizes = False"
| "icons_loop (ic # rest) validIconSizes =
     (if valid_loop (sizes ic) validIconSizes then True else icons_loop rest validIconSizes)"

definition imageGroupValidation ::
  "constants \<Rightarrow> manifestContent \<Rightarrow> string \<Rightarrow> string \<Rightarrow> atom list
     \<Rightarrow> validationResult jsval behaviour" where
  "imageGroupValidation K manifestContent descr plat validIconSizes =
     (let result = \<lparr>description = descr, platform = plat, level = levels_warning K,
                     member_tag = manifestMembers_icons K, code = codes_missingImageGroup K,
                     data = validIconSizes\<rparr>
      in case icons manifestContent of
           None \<Rightarrow> Calls None (Obj result)
         | Some ics \<Rightarrow>
             if length ics = 0 then Calls None (Obj result)
             else if icons_loop ics validIconSizes then Calls None (Atom JUndefined)
             else Calls None (Obj result))"

section \<open>Observable effects and outcomes\<close>

text \<open>
  What a call does besides returning: directory listings, module loads, lines written with
  \<^verbatim>\<open>console.log\<close>, and rule invocations (by position in the rule list). Tasks that run
  concurrently are listed in the order of the list they were started from; the claims
  below only count events or ask whether one occurs.
\<close>

datatype event = ReadDir string | Require string | ConsoleLog string | RuleCall nat

text \<open>
  How a call that returns a promise ends: the promise is fulfilled, it is rejected with an
  error message, it never settles, or the call throws before returning a promise.
\<close>

datatype 'a outcome = Resolved 'a | Rejected string | Pending | Thrown string

text \<open>
  The three entry points take an optional node-style callback (\<^verbatim>\<open>nodeify\<close>); the model is
  of the call without it, which returns the promise.
\<close>

text \<open>The state of a deferred (\<^verbatim>\<open>Q.defer()\<close>).\<close>

datatype task = TaskPending | TaskFulfilled | TaskRejected string

section \<open>The file system seen by the loader\<close>

text \<open>
  A file system object: a file, with what \<^verbatim>\<open>require\<close> does on it (it throws an error with
  a message, or returns the module's exported value); a directory with its entries in the
  order \<^verbatim>\<open>fs.readdir\<close> lists them; a directory whose listing fails with a message; an
  object on which \<^verbatim>\<open>fs.stat\<close> (and so \<^verbatim>\<open>fs.readdir\<close>) fails with a message.
\<close>

datatype 'f fsnode =
    File "string + 'f jsval"
  | Dir "(string \<times> 'f fsnode) list"
  | Unreadable string
  | Unstattable string

fun readdir :: "string \<Rightarrow> 'f fsnode \<Rightarrow> string + (string \<times> 'f fsnode) list" where
  "readdir p (Dir entries) = Inr entries"
| "readdir p (Unreadable cause) = Inl cause"
| "readdir p (Unstattable cause) = Inl cause"
| "readdir p (File m) = Inl (''ENOTDIR: not a directory, scandir '' @ [CHR 0x27] @ p @ [CHR 0x27])"

text \<open>\<^verbatim>\<open>fs.stat\<close>: the error message, or the answer of \<^verbatim>\<open>info.isDirectory()\<close>.\<close>

fun stat :: "'f fsnode \<Rightarrow> string + bool" where
  "stat (File m) = Inr False"
| "stat (Dir entries) = Inr True"
| "stat (Unreadable cause) = Inr True"
| "stat (Unstattable cause) = Inl cause"

text \<open>\<^verbatim>\<open>require(p)\<close>: the message of the error thrown, or the exported value.\<close>

fun require_module :: "string \<Rightarrow> 'f fsnode \<Rightarrow> string + 'f jsval" where
  "require_module p (File m) = m"
| "require_module p _ = Inl (''Cannot find module '' @ [CHR 0x27] @ p @ [CHR 0x27])"

text \<open>\<^verbatim>\<open>path.join\<close> of a directory and an entry name.\<close>

definition path_join :: "string \<Rightarrow> string \<Rightarrow> string" where
  "path_join d f = d @ ''/'' @ f"

text \<open>\<^verbatim>\<open>Array.prototype.indexOf\<close>: the first index holding the value, or \<open>-1\<close>.\<close>

fun indexOf_from :: "'a list \<Rightarrow> 'a \<Rightarrow> int \<Rightarrow> int" where
  "indexOf_from [] x i = - 1"
| "indexOf_from (y # ys) x i = (if y = x then i else indexOf_from ys x (i + 1))"

definition indexOf :: "'a list \<Rightarrow> 'a \<Rightarrow> int" where
  "indexOf xs x = indexOf_from xs x 0"

section \<open>loadValidationRules\<close>

text \<open>
  Lines 43-59, the body of the \<^verbatim>\<open>reduce\<close>: a settled entry is \<open>Inr value\<close> (fulfilled) or
  \<open>Inl reason\<close> (rejected); the accumulator is the console output and the rule list.
\<close>

fun consolidate ::
  "event list \<times> 'f jsval list \<Rightarrow> string + 'f jsval \<Rightarrow> event list \<times> 'f jsval list" where
  "consolidate (out, validationRules) (Inr v) =
     (if truthy v then
        (if isArray v then (out, validationRules @ elements v)
         else (out, validationRules @ [v]))
      else (out, validationRules))"
| "consolidate (out, validationRules) (Inl reason) =
     (out @ [ConsoleLog reason], validationRules)"

lemma readdir_size:
  "readdir p node = Inr entries \<Longrightarrow> (f, c) \<in> set entries \<Longrightarrow> size c < size node"
proof (cases node)
  case (Dir es)
  assume "readdir p node = Inr entries" and mem: "(f, c) \<in> set entries"
  with Dir have "entries = es" by simp
  have "size c < Suc (size_prod (\<lambda>_. 0) size (f, c))" by simp
  with mem have "size c < Suc (size_list (size_prod (\<lambda>_. 0) size) entries)"
    by (induction entries) auto
  with Dir \<open>entries = es\<close> show ?thesis by simp
qed auto

text \<open>
  Lines 12-66. \<open>platforms = None\<close> is a call that passes no second argument; then
  \<^verbatim>\<open>platforms.indexOf\<close> raises a TypeError inside the entry's task, which rejects it. The
  result is the events of the call and \<open>Inl message\<close> (the promise is rejected) or
  \<open>Inr rules\<close> (fulfilled).
\<close>

function loadValidationRules ::
  "string \<Rightarrow> string list option \<Rightarrow> 'f fsnode \<Rightarrow> event list \<times> (string + 'f jsval list)" where
  "loadValidationRules validationRulesDir platforms node =
     (case readdir validationRulesDir node of
        Inl cause \<Rightarrow>
          ([ReadDir validationRulesDir],
           Inl (''Failed to read validation rules from the specified folder: '' @ [CHR 0x27]
                @ validationRulesDir @ [CHR 0x27] @ ''. '' @ cause @ ''.''))
      | Inr entries \<Rightarrow>
          (let tasks = map (\<lambda>(file, child).
                 (let filePath = path_join validationRulesDir file in
                  case stat child of
                    Inl cause \<Rightarrow> ([], Inl cause)
                  | Inr isDirectory \<Rightarrow>
                      if isDirectory then
                        (case platforms of
                           None \<Rightarrow> ([], Inl ''Cannot read property 'indexOf' of undefined'')
                         | Some ps \<Rightarrow>
                             if indexOf ps file < 0 then ([], Inr (Atom JUndefined))
                             else (case loadValidationRules filePath (Some []) child of
                                     (ev, Inl err) \<Rightarrow> (ev, Inl err)
                                   | (ev, Inr rules) \<Rightarrow> (ev, Inr (Arr rules))))
                      else
                        (case require_module filePath child of
                           Inl err \<Rightarrow>
                             ([Require filePath],
                              Inl (''Failed to load validation rule from file: '' @ [CHR 0x27]
                                   @ file @ [CHR 0x27] @ ''. '' @ err @ ''.''))
                         | Inr v \<Rightarrow> ([Require filePath], Inr v)))) entries;
               (out, validationRules) =
                 fold (\<lambda>result acc. consolidate acc result) (map snd tasks) ([], [])
           in (ReadDir validationRulesDir # concat (map fst tasks) @ out,
               Inr validationRules)))"
  by pat_completeness auto
termination
  by (relation "measure (\<lambda>(d, ps, node). size node)") (auto dest: readdir_size)

declare loadValidationRules.simps [simp del]

section \<open>runValidationRules\<close>

text \<open>
  Calling an entry of the rule list: a function runs; anything else is not callable and the
  call raises a TypeError.
\<close>

fun invoke :: "('c, 'o) rule jsval \<Rightarrow> 'c \<Rightarrow> 'o jsval behaviour" where
  "invoke (Obj validationRule) c = validationRule c"
| "invoke _ c = Throws ''validationRule is not a function''"

text \<open>
  Lines 73-90, the \<^verbatim>\<open>forEach\<close>: every rule is invoked in list order, \<open>i\<close> counting from the
  start of the list; a rule that throws ends the loop with its error. The result is the
  events and the error, or what each rule does with its callback.
\<close>

fun start_rules ::
  "'c \<Rightarrow> ('c, 'o) rule jsval list \<Rightarrow> nat \<Rightarrow> event list \<times> (string + 'o jsval behaviour list)" where
  "start_rules c [] i = ([], Inr [])"
| "start_rules c (validationRule # rest) i =
     (case invoke validationRule c of
        Throws e \<Rightarrow> ([RuleCall i], Inl e)
      | b \<Rightarrow> (case start_rules c rest (Suc i) of
                (ev, Inl e) \<Rightarrow> (RuleCall i # ev, Inl e)
              | (ev, Inr bs) \<Rightarrow> (RuleCall i # ev, Inr (b # bs))))"

text \<open>
  \<^verbatim>\<open>validationTask.resolve()\<close> and \<^verbatim>\<open>validationTask.reject(err)\<close> on deferred \<open>i\<close>: a deferred
  that is already settled stays as it is.
\<close>

definition settle :: "task list \<Rightarrow> nat \<Rightarrow> task \<Rightarrow> task list" where
  "settle tasks i t = (if tasks ! i = TaskPending then tasks[i := t] else tasks)"

text \<open>
  Lines 77-89, the callback of rule \<open>i\<close> firing: \<open>results\<close> is the shared accumulator,
  \<open>tasks\<close> the deferreds of \<^verbatim>\<open>pendingValidations\<close>. The results are pushed on every firing,
  whatever the state of the deferred. A rule that never calls back leaves its deferred
  pending.
\<close>

fun callback_step ::
  "'o jsval behaviour list \<Rightarrow> nat \<Rightarrow> 'o jsval list \<times> task list \<Rightarrow> 'o jsval list \<times> task list" where
  "callback_step bs i (results, tasks) =
     (if i < length bs \<and> i < length tasks then
        (case bs ! i of
           Calls err ruleResult \<Rightarrow>
             (case err of
                Some e \<Rightarrow> (results, settle tasks i (TaskRejected e))
              | None \<Rightarrow>
                  ((if isArray ruleResult then results @ elements ruleResult
                    else if truthy ruleResult then results @ [ruleResult]
                    else results),
                   settle tasks i TaskFulfilled))
         | _ \<Rightarrow> (results, tasks))
      else (results, tasks))"

text \<open>
  Lines 68-95. \<open>sched\<close> is the order in which the rules' callbacks fire, by position in
  the rule list (for rules that call back before returning it is \<open>[0..<length rules]\<close>);
  a position named again is the same callback firing again, and a position out of range
  fires nothing. \<^verbatim>\<open>Q.allSettled\<close> waits for every deferred, and \<^verbatim>\<open>thenResolve\<close> then
  fulfils with the accumulator.
\<close>

definition runValidationRules ::
  "'c w3cManifestInfo \<Rightarrow> ('c, 'o) rule jsval list \<Rightarrow> nat list
     \<Rightarrow> event list \<times> 'o jsval list outcome" where
  "runValidationRules w3cManifestInfo rules sched =
     (case start_rules (content w3cManifestInfo) rules 0 of
        (ev, Inl e) \<Rightarrow> (ev, Thrown e)
      | (ev, Inr bs) \<Rightarrow>
          (let (results, pendingValidations) =
                 fold (callback_step bs) sched ([], replicate (length bs) TaskPending)
           in (ev, if TaskPending \<in> set pendingValidations then Pending
                   else Resolved results)))"

section \<open>validateManifest\<close>

text \<open>
  A platform collaborator, by what \<^verbatim>\<open>getValidationRules(platforms)\<close> does: its promise is
  fulfilled with a rule list, rejected, never settles, or the call throws.
\<close>

datatype 'r reply = RulesResolved 'r | RulesRejected string | RulesPending | GetThrows string

type_synonym ('c, 'o) platformModule = "string list \<Rightarrow> ('c, 'o) rule jsval list reply"

text \<open>
  The order of the callbacks, which the scheduler and the rules decide: for the common rule
  set, for the rule set of each platform module (by position), and the order in which the
  platform pipelines finish.
\<close>

record scheduling =
  commonOrder :: "nat list"
  platformOrder :: "nat \<Rightarrow> nat list"
  settleOrder :: "nat list"

text \<open>
  How one platform task of lines 118-124 ends: it pushes its results onto \<^verbatim>\<open>allResults\<close> and
  is fulfilled, it is rejected, or it never settles.
\<close>

datatype 'a pipeline = Pushes 'a | Fails string | Stalls

text \<open>
  Lines 118-124, the \<^verbatim>\<open>map\<close> over the platform modules, \<open>k\<close> counting from the start of the
  list: a module whose \<^verbatim>\<open>getValidationRules\<close> throws ends the loop with its error.
\<close>

fun start_platforms ::
  "'c w3cManifestInfo \<Rightarrow> string list \<Rightarrow> scheduling \<Rightarrow> nat \<Rightarrow> ('c, 'o) platformModule list
     \<Rightarrow> event list \<times> (string + 'o jsval list pipeline list)" where
  "start_platforms w3cManifestInfo platforms sch k [] = ([], Inr [])"
| "start_platforms w3cManifestInfo platforms sch k (getValidationRules # rest) =
     (case getValidationRules platforms of
        GetThrows e \<Rightarrow> ([], Inl e)
      | r \<Rightarrow>
          (let (ev, p) =
                 (case r of
                    RulesResolved rules \<Rightarrow>
                      (case runValidationRules w3cManifestInfo rules (platformOrder sch k) of
                         (ev, Resolved results) \<Rightarrow> (ev, Pushes results)
                       | (ev, Rejected e) \<Rightarrow> (ev, Fails e)
                       | (ev, Thrown e) \<Rightarrow> (ev, Fails e)
                       | (ev, Pending) \<Rightarrow> (ev, Stalls))
                  | RulesRejected e \<Rightarrow> ([], Fails e)
                  | _ \<Rightarrow> ([], Stalls))
           in case start_platforms w3cManifestInfo platforms sch (Suc k) rest of
                (ev', Inl e) \<Rightarrow> (ev @ ev', Inl e)
              | (ev', Inr ps) \<Rightarrow> (ev @ ev', Inr (p # ps))))"

text \<open>Platform task \<open>k\<close> finishing: lines 120-122 and the deferred behind its promise.\<close>

fun platform_step ::
  "'a list pipeline list \<Rightarrow> nat \<Rightarrow> 'a list \<times> task list \<Rightarrow> 'a list \<times> task list" where
  "platform_step ps k (allResults, platformTasks) =
     (if k < length ps \<and> k < length platformTasks \<and> platformTasks ! k = TaskPending then
        (case ps ! k of
           Pushes results \<Rightarrow> (allResults @ results, platformTasks[k := TaskFulfilled])
         | Fails e \<Rightarrow> (allResults, platformTasks[k := TaskRejected e])
         | Stalls \<Rightarrow> (allResults, platformTasks))
      else (allResults, platformTasks))"

text \<open>
  Lines 97-131. \<open>w3cManifestInfo = None\<close> is a missing first argument and
  \<open>content = None\<close> a missing content. \<open>dirname\<close> is \<^verbatim>\<open>__dirname\<close> and \<open>rulesNode\<close> what the
  file system holds at \<^verbatim>\<open>path.join(__dirname, 'validationRules')\<close>. Line 111 calls
  \<open>loadValidationRules\<close> with the directory alone.
\<close>

definition validateManifest ::
  "constants \<Rightarrow> string \<Rightarrow> ('c option, 'o) rule fsnode \<Rightarrow> scheduling
     \<Rightarrow> 'c option w3cManifestInfo option \<Rightarrow> ('c option, 'o) platformModule list \<Rightarrow> string list
     \<Rightarrow> event list \<times> 'o jsval list outcome" where
  "validateManifest K dirname rulesNode sch w3cManifestInfo platformModules platforms =
     (case w3cManifestInfo of
        None \<Rightarrow> ([], Rejected ''Manifest content is empty or invalid.'')
      | Some info \<Rightarrow>
          if content info = None then ([], Rejected ''Manifest content is empty or invalid.'')
          else if format info \<noteq> BASE_MANIFEST_FORMAT K
          then ([], Rejected ''The manifest passed as argument is not a W3C manifest.'')
          else
            (let validationRulesDir = path_join dirname ''validationRules'' in
             case loadValidationRules validationRulesDir None rulesNode of
               (ev1, Inl err) \<Rightarrow> (ev1, Rejected err)
             | (ev1, Inr rules) \<Rightarrow>
                 (case runValidationRules info rules (commonOrder sch) of
                    (ev2, Thrown e) \<Rightarrow> (ev1 @ ev2, Rejected e)
                  | (ev2, Rejected e) \<Rightarrow> (ev1 @ ev2, Rejected e)
                  | (ev2, Pending) \<Rightarrow> (ev1 @ ev2, Pending)
                  | (ev2, Resolved results) \<Rightarrow>
                      (let allResults = [] @ results in
                       case start_platforms info platforms sch 0 platformModules of
                         (ev3, Inl e) \<Rightarrow> (ev1 @ ev2 @ ev3, Rejected e)
                       | (ev3, Inr ps) \<Rightarrow>
                           (let (allResults', platformTasks) =
                                  fold (platform_step ps) (settleOrder sch)
                                    (allResults, replicate (length ps) TaskPending)
                            in (ev1 @ ev2 @ ev3,
                                if TaskPending \<in> set platformTasks then Pending
                                else Resolved allResults'))))))"

section \<open>Notions used in the statements\<close>

text \<open>
  Lines 20-40, the task of one directory entry: the function that \<open>loadValidationRules\<close> maps
  over the entries, under a name.
\<close>

definition entry_task ::
  "string \<Rightarrow> string list option \<Rightarrow> string \<times> 'f fsnode \<Rightarrow> event list \<times> (string + 'f jsval)" where
  "entry_task validationRulesDir platforms e =
     (case e of (file, child) \<Rightarrow>
        (let filePath = path_join validationRulesDir file in
         case stat child of
           Inl cause \<Rightarrow> ([], Inl cause)
         | Inr isDirectory \<Rightarrow>
             if isDirectory then
               (case platforms of
                  None \<Rightarrow> ([], Inl ''Cannot read property 'indexOf' of undefined'')
                | Some ps \<Rightarrow>
                    if indexOf ps file < 0 then ([], Inr (Atom JUndefined))
                    else (case loadValidationRules filePath (Some []) child of
                            (ev, Inl err) \<Rightarrow> (ev, Inl err)
                          | (ev, Inr rules) \<Rightarrow> (ev, Inr (Arr rules))))
             else
               (case require_module filePath child of
                  Inl err \<Rightarrow>
                    ([Require filePath],
                     Inl (''Failed to load validation rule from file: '' @ [CHR 0x27]
                          @ file @ [CHR 0x27] @ ''. '' @ err @ ''.''))
                | Inr v \<Rightarrow> ([Require filePath], Inr v))))"

text \<open>What a settled entry adds to the rule list, and what it writes to the console.\<close>

fun loaded :: "string + 'f jsval \<Rightarrow> 'f jsval list" where
  "loaded (Inr v) = (if truthy v then (if isArray v then elements v else [v]) else [])"
| "loaded (Inl reason) = []"

fun logged :: "string + 'f jsval \<Rightarrow> event list" where
  "logged (Inr v) = []"
| "logged (Inl reason) = [ConsoleLog reason]"

text \<open>The rule list of a load (empty when the load is rejected).\<close>

fun rules_of :: "event list \<times> (string + 'a list) \<Rightarrow> 'a list" where
  "rules_of (ev, Inr rs) = rs"
| "rules_of (ev, Inl e) = []"

text \<open>
  The rules exported by the plain files that are immediate entries of a directory \<open>p\<close>, in
  listing order.
\<close>

definition file_rules :: "string \<Rightarrow> (string \<times> 'f fsnode) list \<Rightarrow> 'f jsval list" where
  "file_rules p sub =
     concat (map (\<lambda>(f, c). loaded (require_module (path_join p f) c))
                 (filter (\<lambda>(f, c). stat c = Inr False) sub))"

fun is_log :: "event \<Rightarrow> bool" where
  "is_log (ConsoleLog m) = True"
| "is_log _ = False"

text \<open>A file named \<open>fst e\<close> whose module exports the single rule function \<open>snd e\<close>.\<close>

definition rule_file :: "string \<times> 'f \<Rightarrow> string \<times> 'f fsnode" where
  "rule_file e = (fst e, File (Inr (Obj (snd e))))"

text \<open>
  What a rule's completion adds to the results, in the words of the specification: nothing
  on error, the entries of a list result, a single non-empty result, nothing otherwise.
\<close>

fun contribution :: "'o jsval behaviour \<Rightarrow> 'o jsval list" where
  "contribution (Calls (Some e) ruleResult) = []"
| "contribution (Calls None (Arr xs)) = xs"
| "contribution (Calls None v) = (if truthy v then [v] else [])"
| "contribution _ = []"

text \<open>A rule invocation that calls its completion callback.\<close>

fun completes :: "'v behaviour \<Rightarrow> bool" where
  "completes (Calls err ruleResult) = True"
| "completes _ = False"

text \<open>The results a platform task merges into the report.\<close>

fun pushed :: "'a list pipeline \<Rightarrow> 'a list" where
  "pushed (Pushes results) = results"
| "pushed _ = []"

section \<open>Concrete inputs\<close>

text \<open>A table of constants for evaluating the definitions at concrete inputs.\<close>

definition sample_constants :: constants where
  "sample_constants =
     \<lparr>BASE_MANIFEST_FORMAT = ''w3c'', manifestMembers_icons = ''icons'',
      codes_missingImage = ''missing-image'', codes_missingImageGroup = ''missing-image-group'',
      levels_warning = ''warning''\<rparr>"

text \<open>
  A built-in rule directory with one common rule file and one platform folder, a document,
  two platform modules, and an order of completion in which the second platform finishes
  first.
\<close>

definition sample_rules_dir :: "(unit option, nat) rule fsnode" where
  "sample_rules_dir =
     Dir [(''a.js'', File (Inr (Obj (\<lambda>c. Calls None (Obj 1))))),
          (''android'', Dir [(''b.js'', File (Inr (Obj (\<lambda>c. Calls None (Obj 2)))))])]"

definition sample_info :: "unit option w3cManifestInfo" where
  "sample_info = \<lparr>content = Some (), format = ''w3c''\<rparr>"

definition sample_platform_modules :: "(unit option, nat) platformModule list" where
  "sample_platform_modules =
     [(\<lambda>ps. RulesResolved [Obj (\<lambda>c. Calls None (Obj 10))]),
      (\<lambda>ps. RulesResolved [Obj (\<lambda>c. Calls None (Obj 11))])]"

definition sample_scheduling :: scheduling where
  "sample_scheduling = \<lparr>commonOrder = [0], platformOrder = (\<lambda>k. [0]), settleOrder = [1, 0]\<rparr>"

section \<open>Properties of the icon rules\<close>

lemma found_loop_iff: "found_loop r ics f \<longleftrightarrow> f \<or> r \<in> sizes ` set ics"
  by (induction ics arbitrary: f) auto

lemma missing_loop_filter:
  "missing_loop req ics acc = acc @ filter (\<lambda>r. r \<notin> sizes ` set ics) req"
  by (induction req arbitrary: acc) (simp_all add: found_loop_iff)

lemma valid_loop_iff: "valid_loop s vs \<longleftrightarrow> s \<in> set vs"
  by (induction vs) auto

lemma icons_loop_iff: "icons_loop ics vs \<longleftrightarrow> (\<exists>ic \<in> set ics. sizes ic \<in> set vs)"
  by (induction ics) (auto simp: valid_loop_iff)

text \<open>
  C8. The rule built from \<open>imageValidation\<close> completes without error. For a document with
  no icons (absent or empty list) it reports one \<open>missingImage\<close> result whose data is all
  of the required sizes. For a document with icons it reports one result whose data is the
  required sizes absent from the icons' sizes, in their order, when there is one, and reports
  nothing when every required size is present.
\<close>

theorem imageValidation_reports:
  "imageValidation K mc d p l req =
     (let report = (\<lambda>xs. Calls None (Obj \<lparr>description = d, platform = p, level = l,
                      member_tag = manifestMembers_icons K, code = codes_missingImage K,
                      data = xs\<rparr>))
      in case icons mc of
           None \<Rightarrow> report req
         | Some ics \<Rightarrow>
             if ics = [] then report req
             else if filter (\<lambda>r. r \<notin> sizes ` set ics) req = [] then Calls None (Atom JUndefined)
             else report (filter (\<lambda>r. r \<notin> sizes ` set ics) req))"
  by (simp add: imageValidation_def missing_loop_filter Let_def split: option.split)

theorem imageValidation_reports_witness:
  "imageValidation sample_constants \<lparr>icons = Some [\<lparr>sizes = JNum 16\<rparr>]\<rparr> ''desc'' ''web'' ''error''
       [JNum 16, JNum 32]
     = Calls None (Obj \<lparr>description = ''desc'', platform = ''web'', level = ''error'',
                      member_tag = manifestMembers_icons sample_constants, code = codes_missingImage sample_constants,
                      data = [JNum 32]\<rparr>)
   \<and> imageValidation sample_constants \<lparr>icons = Some [\<lparr>sizes = JNum 16\<rparr>, \<lparr>sizes = JNum 32\<rparr>]\<rparr>
       ''desc'' ''web'' ''error'' [JNum 16, JNum 32]
     = Calls None (Atom JUndefined)
   \<and> imageValidation sample_constants \<lparr>icons = None\<rparr> ''desc'' ''web'' ''error'' [JNum 16, JNum 32]
     = Calls None (Obj \<lparr>description = ''desc'', platform = ''web'', level = ''error'',
                      member_tag = manifestMembers_icons sample_constants, code = codes_missingImage sample_constants,
                      data = [JNum 16, JNum 32]\<rparr>)"
  using imageValidation_reports [of sample_constants "\<lparr>icons = Some [\<lparr>sizes = JNum 16\<rparr>]\<rparr>"
          "''desc''" "''web''" "''error''" "[JNum 16, JNum 32]"]
        imageValidation_reports [of sample_constants "\<lparr>icons = Some [\<lparr>sizes = JNum 16\<rparr>, \<lparr>sizes = JNum 32\<rparr>]\<rparr>"
          "''desc''" "''web''" "''error''" "[JNum 16, JNum 32]"]
        imageValidation_reports [of sample_constants "\<lparr>icons = None\<rparr>"
          "''desc''" "''web''" "''error''" "[JNum 16, JNum 32]"]
  by simp

text \<open>
  C9. The rule built from \<open>imageGroupValidation\<close> completes without error. For a document
  with no icons (absent or empty list) it reports one warning-level \<open>missingImageGroup\<close>
  result whose data is all of the valid sizes. For a document with icons it reports nothing
  when some icon's size is one of the valid sizes, and otherwise reports that same warning
  result carrying the full list of valid sizes.
\<close>

theorem imageGroupValidation_reports:
  "imageGroupValidation K mc d p valid =
     (let warning = Calls None (Obj \<lparr>description = d, platform = p, level = levels_warning K,
                      member_tag = manifestMembers_icons K,
                      code = codes_missingImageGroup K, data = valid\<rparr>)
      in case icons mc of
           None \<Rightarrow> warning
         | Some ics \<Rightarrow>
             if ics = [] then warning
             else if (\<exists>ic \<in> set ics. sizes ic \<in> set valid) then Calls None (Atom JUndefined)
             else warning)"
  by (simp add: imageGroupValidation_def icons_loop_iff Let_def split: option.split)

theorem imageGroupValidation_reports_witness:
  "imageGroupValidation sample_constants \<lparr>icons = Some [\<lparr>sizes = JNum 64\<rparr>]\<rparr> ''desc'' ''web''
       [JNum 16, JNum 32]
     = Calls None (Obj \<lparr>description = ''desc'', platform = ''web'', level = levels_warning sample_constants,
                      member_tag = manifestMembers_icons sample_constants,
                      code = codes_missingImageGroup sample_constants, data = [JNum 16, JNum 32]\<rparr>)
   \<and> imageGroupValidation sample_constants \<lparr>icons = Some [\<lparr>sizes = JNum 64\<rparr>, \<lparr>sizes = JNum 32\<rparr>]\<rparr>
       ''desc'' ''web'' [JNum 16, JNum 32]
     = Calls None (Atom JUndefined)"
  using imageGroupValidation_reports [of sample_constants "\<lparr>icons = Some [\<lparr>sizes = JNum 64\<rparr>]\<rparr>"
          "''desc''" "''web''" "[JNum 16, JNum 32]"]
        imageGroupValidation_reports
          [of sample_constants "\<lparr>icons = Some [\<lparr>sizes = JNum 64\<rparr>, \<lparr>sizes = JNum 32\<rparr>]\<rparr>"
          "''desc''" "''web''" "[JNum 16, JNum 32]"]
  by simp

section \<open>Properties of the loader\<close>

lemma fold_consolidate:
  "fold (\<lambda>result acc. consolidate acc result) rs (out, rules)
     = (out @ concat (map logged rs), rules @ concat (map loaded rs))"
proof (induction rs arbitrary: out rules)
  case Nil
  show ?case by simp
next
  case (Cons r rs)
  show ?case by (cases r) (simp_all add: Cons.IH)
qed

lemma loadValidationRules_Dir:
  "loadValidationRules dir ps (Dir entries) =
     (ReadDir dir # concat (map (fst \<circ> entry_task dir ps) entries)
        @ concat (map (logged \<circ> snd \<circ> entry_task dir ps) entries),
      Inr (concat (map (loaded \<circ> snd \<circ> entry_task dir ps) entries)))"
proof -
  have "(\<lambda>(file, child). entry_task dir ps (file, child)) = entry_task dir ps" by auto
  show ?thesis
    apply (subst loadValidationRules.simps)
    apply (simp add: entry_task_def [abs_def] fold_consolidate Let_def comp_def)
    done
qed

lemma rules_of_Dir:
  "rules_of (loadValidationRules dir ps (Dir es))
     = concat (map (loaded \<circ> snd \<circ> entry_task dir ps) es)"
  by (simp add: loadValidationRules_Dir)

lemma indexOf_from_neg: "0 \<le> i \<Longrightarrow> indexOf_from xs x i < 0 \<longleftrightarrow> x \<notin> set xs"
  by (induction xs arbitrary: i) auto

lemma indexOf_neg: "indexOf xs x < 0 \<longleftrightarrow> x \<notin> set xs"
  by (simp add: indexOf_def indexOf_from_neg)

lemma entry_task_skipped:
  "stat d = Inr True \<Longrightarrow> name \<notin> set ps
     \<Longrightarrow> entry_task dir (Some ps) (name, d) = ([], Inr (Atom JUndefined))"
  by (simp add: entry_task_def indexOf_neg)

lemma entry_task_file:
  "entry_task dir ps (f, File m) =
     ([Require (path_join dir f)],
      case m of
        Inl err \<Rightarrow> Inl (''Failed to load validation rule from file: '' @ [CHR 0x27]
                          @ f @ [CHR 0x27] @ ''. '' @ err @ ''.'')
      | Inr v \<Rightarrow> Inr v)"
  by (simp add: entry_task_def split: sum.split)

lemma loaded_entry_task_unfiltered:
  "loaded (snd (entry_task p (Some []) (f, c)))
     = (if stat c = Inr False then loaded (require_module (path_join p f) c) else [])"
proof (cases "stat c")
  case (Inl cause)
  then show ?thesis by (simp add: entry_task_def)
next
  case (Inr isDirectory)
  then show ?thesis
    by (cases "require_module (path_join p f) c")
       (simp_all add: entry_task_def indexOf_neg)
qed

lemma rules_unfiltered:
  "snd (loadValidationRules p (Some []) (Dir sub)) = Inr (file_rules p sub)"
proof -
  have "concat (map (loaded \<circ> snd \<circ> entry_task p (Some [])) sub) = file_rules p sub"
    unfolding file_rules_def
    by (induction sub) (auto simp: loaded_entry_task_unfiltered simp del: loaded.simps)
  then show ?thesis by (simp add: loadValidationRules_Dir)
qed

lemma entry_task_matched:
  assumes "name \<in> set ps"
  shows "loaded (snd (entry_task dir (Some ps) (name, Dir sub)))
           = file_rules (path_join dir name) sub"
proof -
  obtain ev where "loadValidationRules (path_join dir name) (Some []) (Dir sub)
                     = (ev, Inr (file_rules (path_join dir name) sub))"
    using rules_unfiltered [of "path_join dir name" sub]
    by (cases "loadValidationRules (path_join dir name) (Some []) (Dir sub)") simp
  with assms show ?thesis
    by (simp add: entry_task_def indexOf_neg)
qed

lemma rule_files_tasks:
  "concat (map (loaded \<circ> snd \<circ> entry_task dir ps \<circ> rule_file) good) = map (Obj \<circ> snd) good"
  "concat (map (logged \<circ> snd \<circ> entry_task dir ps \<circ> rule_file) good) = []"
  "filter is_log (concat (map (fst \<circ> entry_task dir ps \<circ> rule_file) good)) = []"
  by (induction good) (simp_all add: rule_file_def entry_task_file)

text \<open>
  C5. An immediate subdirectory of the rules directory whose name is not in the requested
  platform set is skipped entirely: the load returns the rule list, and has the effects, of
  the same directory without that subdirectory, whatever the subdirectory holds.
\<close>

theorem skipped_directory:
  assumes "name \<notin> set ps" and "stat d = Inr True"
  shows "loadValidationRules dir (Some ps) (Dir (es1 @ (name, d) # es2))
           = loadValidationRules dir (Some ps) (Dir (es1 @ es2))"
  using assms
  by (simp add: loadValidationRules_Dir entry_task_skipped)

theorem skipped_directory_witness:
  "loadValidationRules ''rules'' (Some [''android''])
     (Dir [(''common.js'', File (Inr (Obj (1::nat)))),
           (''android'', Dir [(''a.js'', File (Inr (Obj 2)))]),
           (''ios'', Dir [(''i.js'', File (Inr (Obj 3)))])])
   = ([ReadDir ''rules'', Require ''rules/common.js'', ReadDir ''rules/android'',
       Require ''rules/android/a.js''], Inr [Obj 1, Obj 2])"
proof -
  have "''ios'' \<notin> set [''android'']" by simp
  moreover have "stat (Dir [(''i.js'', File (Inr (Obj (3::nat))))]) = Inr True" by simp
  ultimately have
    "loadValidationRules ''rules'' (Some [''android''])
       (Dir ([(''common.js'', File (Inr (Obj (1::nat)))),
              (''android'', Dir [(''a.js'', File (Inr (Obj 2)))])]
             @ (''ios'', Dir [(''i.js'', File (Inr (Obj 3)))]) # []))
     = loadValidationRules ''rules'' (Some [''android''])
       (Dir ([(''common.js'', File (Inr (Obj (1::nat)))),
              (''android'', Dir [(''a.js'', File (Inr (Obj 2)))])] @ []))"
    by (rule skipped_directory)
  then show ?thesis
    by (simp add: loadValidationRules_Dir entry_task_def indexOf_def path_join_def)
qed

text \<open>
  C4, as amended. A subdirectory whose name is in the platform filter is loaded with an
  empty platform filter: it contributes, at its place in the rule list, the rules exported
  by the plain files that are its immediate entries, and nothing else. With the empty
  filter every directory nested beneath it is skipped.
\<close>

theorem matched_directory:
  assumes "name \<in> set ps"
  shows "snd (loadValidationRules dir (Some ps) (Dir (es1 @ (name, Dir sub) # es2)))
           = Inr (rules_of (loadValidationRules dir (Some ps) (Dir es1))
                  @ file_rules (path_join dir name) sub
                  @ rules_of (loadValidationRules dir (Some ps) (Dir es2)))"
  using assms
  by (simp add: loadValidationRules_Dir entry_task_matched rules_of_Dir
           del: loaded.simps)

theorem matched_directory_witness:
  "snd (loadValidationRules ''rules'' (Some [''android''])
      (Dir [(''common.js'', File (Inr (Obj (1::nat)))),
            (''android'',
             Dir [(''a.js'', File (Inr (Obj 2))),
                  (''tablet'', Dir [(''deep.js'', File (Inr (Obj 3)))])])]))
     = Inr [Obj 1, Obj 2]"
proof -
  have "''android'' \<in> set [''android'']" by simp
  from matched_directory [OF this, of "''rules''"
        "[(''common.js'', File (Inr (Obj (1::nat))))]"
        "[(''a.js'', File (Inr (Obj 2))), (''tablet'', Dir [(''deep.js'', File (Inr (Obj 3)))])]"
        "[]"]
  show ?thesis
    by (simp add: loadValidationRules_Dir entry_task_def file_rules_def path_join_def)
qed

text \<open>
  The claim as first stated has the rules of nested directories loaded too. Here the rule of
  \<^verbatim>\<open>android/tablet/deep.js\<close> is not in the list.
\<close>

theorem nested_directory_counterexample:
  "rules_of (loadValidationRules ''rules'' (Some [''android''])
      (Dir [(''android'',
             Dir [(''a.js'', File (Inr (Obj (1::nat)))),
                  (''tablet'', Dir [(''deep.js'', File (Inr (Obj 2)))])])]))
     = [Obj 1]
   \<and> Obj 2 \<notin> set (rules_of (loadValidationRules ''rules'' (Some [''android''])
      (Dir [(''android'',
             Dir [(''a.js'', File (Inr (Obj (1::nat)))),
                  (''tablet'', Dir [(''deep.js'', File (Inr (Obj 2)))])])])))"
  by (simp add: loadValidationRules_Dir entry_task_def indexOf_def path_join_def)

text \<open>
  C7. If listing the rules directory fails, the call is rejected with an error whose message
  holds the directory path and the message of the underlying cause; the directory is read
  once and no rule list is returned.
\<close>

theorem unreadable_directory:
  assumes "readdir dir node = Inl cause"
  shows "loadValidationRules dir ps node
           = ([ReadDir dir],
              Inl (''Failed to read validation rules from the specified folder: '' @ [CHR 0x27]
                   @ dir @ [CHR 0x27] @ ''. '' @ cause @ ''.''))"
  using assms by (simp add: loadValidationRules.simps)

theorem unreadable_directory_witness:
  "loadValidationRules ''rules'' (Some [''android''])
      (Unreadable ''EACCES: permission denied'' :: nat fsnode)
     = ([ReadDir ''rules''],
        Inl ''Failed to read validation rules from the specified folder: 'rules'. EACCES: permission denied.'')"
proof -
  have "readdir ''rules'' (Unreadable ''EACCES: permission denied'' :: nat fsnode)
          = Inl ''EACCES: permission denied''" by simp
  from unreadable_directory [OF this, of "Some [''android'']"] show ?thesis by simp
qed

text \<open>
  C6. A rules directory holding one file that fails to load among rule files that each
  export one rule: the call is fulfilled with exactly the rules of the other files, in
  listing order, and the console receives exactly one line, the failure of that file.
\<close>

theorem one_unloadable_file:
  "snd (loadValidationRules dir ps
          (Dir (map rule_file good1 @ (bad, File (Inl msg)) # map rule_file good2)))
     = Inr (map (Obj \<circ> snd) (good1 @ good2))
   \<and> filter is_log (fst (loadValidationRules dir ps
          (Dir (map rule_file good1 @ (bad, File (Inl msg)) # map rule_file good2))))
     = [ConsoleLog (''Failed to load validation rule from file: '' @ [CHR 0x27]
                    @ bad @ [CHR 0x27] @ ''. '' @ msg @ ''.'')]"
  by (simp add: loadValidationRules_Dir rule_files_tasks entry_task_file)

theorem one_unloadable_file_witness:
  "snd (loadValidationRules ''rules'' (Some [])
          (Dir [(''a.js'', File (Inr (Obj (1::nat)))), (''broken.js'', File (Inl ''Unexpected token'')),
                (''b.js'', File (Inr (Obj 2)))]))
     = Inr [Obj 1, Obj 2]
   \<and> filter is_log (fst (loadValidationRules ''rules'' (Some [])
          (Dir [(''a.js'', File (Inr (Obj (1::nat)))), (''broken.js'', File (Inl ''Unexpected token'')),
                (''b.js'', File (Inr (Obj 2)))])))
     = [ConsoleLog ''Failed to load validation rule from file: 'broken.js'. Unexpected token.'']"
  using one_unloadable_file [of "''rules''" "Some []" "[(''a.js'', 1::nat)]" "''broken.js''"
          "''Unexpected token''" "[(''b.js'', 2)]"]
  by (simp add: rule_file_def)

section \<open>Properties of the executor\<close>

lemma start_rules_complete:
  "\<forall>r \<in> set rules. completes (invoke r c)
     \<Longrightarrow> start_rules c rules i
           = (map RuleCall [i ..< i + length rules], Inr (map (\<lambda>r. invoke r c) rules))"
proof (induction rules arbitrary: i)
  case Nil
  show ?case by simp
next
  case (Cons r rules)
  from Cons.prems have "completes (invoke r c)" by simp
  then obtain err res where "invoke r c = Calls err res" by (cases "invoke r c") simp_all
  moreover from Cons.prems have "\<forall>r \<in> set rules. completes (invoke r c)" by simp
  moreover have "[i ..< Suc (i + length rules)] = i # [Suc i ..< Suc (i + length rules)]"
    by (rule upt_conv_Cons) simp
  ultimately show ?case
    by (simp add: Cons.IH del: upt_Suc)
qed

lemma callback_step_fires:
  assumes "i < length bs" and "length tasks = length bs" and "tasks ! i = TaskPending"
      and "bs ! i = Calls err res"
  shows "callback_step bs i (results, tasks)
           = (results @ contribution (bs ! i),
              tasks[i := (case err of Some e \<Rightarrow> TaskRejected e | None \<Rightarrow> TaskFulfilled)])"
proof (cases err)
  case None
  with assms show ?thesis by (cases res) (simp_all add: settle_def)
next
  case (Some e)
  with assms show ?thesis by (simp add: settle_def)
qed

lemma fold_callback_step:
  assumes "distinct sched" and "length tasks = length bs"
      and "\<forall>i \<in> set sched. i < length bs \<and> tasks ! i = TaskPending \<and> completes (bs ! i)"
  shows "\<exists>tasks'. fold (callback_step bs) sched (results, tasks)
                      = (results @ concat (map (\<lambda>i. contribution (bs ! i)) sched), tasks')
                  \<and> length tasks' = length bs
                  \<and> (\<forall>j < length bs. tasks' ! j = TaskPending
                        \<longleftrightarrow> tasks ! j = TaskPending \<and> j \<notin> set sched)"
  using assms
proof (induction sched arbitrary: results tasks)
  case Nil
  then show ?case by simp
next
  case (Cons i sched)
  from Cons.prems have i: "i < length bs" "tasks ! i = TaskPending" "completes (bs ! i)"
    and notin: "i \<notin> set sched" and dist: "distinct sched" by simp_all
  from i(3) obtain err res where bsi: "bs ! i = Calls err res" by (cases "bs ! i") simp_all
  define t where "t = (case err of Some e \<Rightarrow> TaskRejected e | None \<Rightarrow> TaskFulfilled)"
  have t: "t \<noteq> TaskPending" by (simp add: t_def split: option.split)
  have step: "callback_step bs i (results, tasks) = (results @ contribution (bs ! i), tasks[i := t])"
    using callback_step_fires [OF i(1) Cons.prems(2) i(2) bsi] by (simp add: t_def)
  have len: "length (tasks[i := t]) = length bs" using Cons.prems(2) by simp
  have pre: "\<forall>k \<in> set sched. k < length bs \<and> tasks[i := t] ! k = TaskPending \<and> completes (bs ! k)"
  proof
    fix k assume k: "k \<in> set sched"
    with notin have "k \<noteq> i" by blast
    then have "tasks[i := t] ! k = tasks ! k" by simp
    with k Cons.prems(3) show "k < length bs \<and> tasks[i := t] ! k = TaskPending \<and> completes (bs ! k)"
      by simp
  qed
  from Cons.IH [OF dist len pre, of "results @ contribution (bs ! i)"]
  obtain tasks' where
    f: "fold (callback_step bs) sched (results @ contribution (bs ! i), tasks[i := t])
          = ((results @ contribution (bs ! i)) @ concat (map (\<lambda>i. contribution (bs ! i)) sched), tasks')"
    and l: "length tasks' = length bs"
    and p: "\<forall>j < length bs. tasks' ! j = TaskPending
              \<longleftrightarrow> tasks[i := t] ! j = TaskPending \<and> j \<notin> set sched"
    by blast
  have "\<forall>j < length bs. tasks' ! j = TaskPending
          \<longleftrightarrow> tasks ! j = TaskPending \<and> j \<notin> set (i # sched)"
    using p t Cons.prems(2) i(1) by (auto simp: nth_list_update split: if_splits)
  with f l step show ?case by simp
qed

text \<open>
  C1. When every rule of the list calls its completion callback and \<open>sched\<close> is the order in
  which the callbacks fire, \<open>runValidationRules\<close> is fulfilled with the accumulated list: in
  completion order, the entries of an array result, a single truthy result, nothing for no
  result, and nothing for a rule that completed with an error. It writes nothing to the
  console.
\<close>

theorem runValidationRules_resolves:
  assumes "\<forall>r \<in> set rules. completes (invoke r (content info))"
      and "distinct sched" and "set sched = {..< length rules}"
  shows "snd (runValidationRules info rules sched)
           = Resolved (concat (map (\<lambda>i. contribution (invoke (rules ! i) (content info))) sched))
         \<and> (\<forall>m. ConsoleLog m \<notin> set (fst (runValidationRules info rules sched)))"
proof -
  let ?bs = "map (\<lambda>r. invoke r (content info)) rules"
  have start: "start_rules (content info) rules 0 = (map RuleCall [0 ..< length rules], Inr ?bs)"
    using start_rules_complete [OF assms(1), of 0] by simp
  have pre: "\<forall>i \<in> set sched. i < length ?bs \<and> replicate (length ?bs) TaskPending ! i = TaskPending
               \<and> completes (?bs ! i)"
    using assms(1,3) by auto
  from fold_callback_step [OF assms(2) _ pre, of "[]"]
  obtain tasks' where
    f: "fold (callback_step ?bs) sched ([], replicate (length ?bs) TaskPending)
          = (concat (map (\<lambda>i. contribution (?bs ! i)) sched), tasks')"
    and l: "length tasks' = length ?bs"
    and p: "\<forall>j < length ?bs. tasks' ! j = TaskPending
              \<longleftrightarrow> replicate (length ?bs) TaskPending ! j = TaskPending \<and> j \<notin> set sched"
    by auto
  have "TaskPending \<notin> set tasks'"
    using p l assms(3) by (auto simp: in_set_conv_nth)
  moreover have "concat (map (\<lambda>i. contribution (?bs ! i)) sched)
                   = concat (map (\<lambda>i. contribution (invoke (rules ! i) (content info))) sched)"
    by (rule arg_cong [where f = concat], rule map_cong) (use assms(3) in auto)
  ultimately have "snd (runValidationRules info rules sched)
           = Resolved (concat (map (\<lambda>i. contribution (invoke (rules ! i) (content info))) sched))"
    using start f by (simp add: runValidationRules_def)
  moreover have "fst (runValidationRules info rules sched) = map RuleCall [0 ..< length rules]"
    using start f by (simp add: runValidationRules_def)
  ultimately show ?thesis by auto
qed

theorem runValidationRules_resolves_witness:
  "snd (runValidationRules \<lparr>content = (), format = ''w3c''\<rparr>
          [Obj (\<lambda>c. Calls None (Obj (1::nat))), Obj (\<lambda>c. Calls (Some ''boom'') (Obj 2)),
           Obj (\<lambda>c. Calls None (Arr [Obj 3, Atom JNull])), Obj (\<lambda>c. Calls None (Atom (JNum 0)))]
          [2, 0, 3, 1])
     = Resolved [Obj 3, Atom JNull, Obj 1]"
proof -
  let ?rules = "[Obj (\<lambda>c. Calls None (Obj (1::nat))), Obj (\<lambda>c. Calls (Some ''boom'') (Obj 2)),
           Obj (\<lambda>c. Calls None (Arr [Obj 3, Atom JNull])), Obj (\<lambda>c. Calls None (Atom (JNum 0)))]
           :: (unit, nat) rule jsval list"
  have a: "\<forall>r \<in> set ?rules. completes (invoke r (content \<lparr>content = (), format = ''w3c''\<rparr>))"
    by simp
  have b: "distinct [2, 0, 3, 1 :: nat]" by simp
  have c: "set [2, 0, 3, 1 :: nat] = {..< length ?rules}" by auto
  from runValidationRules_resolves [OF a b c] show ?thesis by simp
qed

section \<open>Properties of the coordinator\<close>

lemma fold_platform_step:
  assumes "length tasks = length ps"
  shows "\<exists>ks tasks'. fold (platform_step ps) order (acc, tasks)
                        = (acc @ concat (map (\<lambda>k. pushed (ps ! k)) ks), tasks')
                  \<and> distinct ks \<and> length tasks' = length ps
                  \<and> (\<forall>k \<in> set ks. k < length ps \<and> tasks ! k = TaskPending)
                  \<and> (\<forall>j < length ps. tasks' ! j = TaskPending
                        \<longleftrightarrow> tasks ! j = TaskPending \<and> j \<notin> set ks)"
  using assms
proof (induction order arbitrary: acc tasks)
  case Nil
  have "fold (platform_step ps) [] (acc, tasks)
          = (acc @ concat (map (\<lambda>k. pushed (ps ! k)) []), tasks)" by simp
  moreover have "distinct ([] :: nat list)" by simp
  ultimately show ?case using Nil by fastforce
next
  case (Cons k order)
  show ?case
  proof (cases "k < length ps \<and> tasks ! k = TaskPending \<and> ps ! k \<noteq> Stalls")
    case True
    define t where "t = (case ps ! k of Fails e \<Rightarrow> TaskRejected e | _ \<Rightarrow> TaskFulfilled)"
    have t: "t \<noteq> TaskPending" by (simp add: t_def split: pipeline.split)
    have step: "platform_step ps k (acc, tasks) = (acc @ pushed (ps ! k), tasks[k := t])"
      using True Cons.prems by (cases "ps ! k") (simp_all add: t_def)
    have len: "length (tasks[k := t]) = length ps" using Cons.prems by simp
    from Cons.IH [OF len, of "acc @ pushed (ps ! k)"]
    obtain ks tasks' where
      f: "fold (platform_step ps) order (acc @ pushed (ps ! k), tasks[k := t])
            = ((acc @ pushed (ps ! k)) @ concat (map (\<lambda>k. pushed (ps ! k)) ks), tasks')"
      and d: "distinct ks" and l: "length tasks' = length ps"
      and m: "\<forall>j \<in> set ks. j < length ps \<and> tasks[k := t] ! j = TaskPending"
      and p: "\<forall>j < length ps. tasks' ! j = TaskPending
                \<longleftrightarrow> tasks[k := t] ! j = TaskPending \<and> j \<notin> set ks"
      by blast
    have knot: "k \<notin> set ks"
    proof
      assume "k \<in> set ks"
      with m have "tasks[k := t] ! k = TaskPending" by blast
      with True Cons.prems t show False by simp
    qed
    have m': "\<forall>j \<in> set (k # ks). j < length ps \<and> tasks ! j = TaskPending"
    proof
      fix j assume j: "j \<in> set (k # ks)"
      show "j < length ps \<and> tasks ! j = TaskPending"
      proof (cases "j = k")
        case True
        with \<open>k < length ps \<and> tasks ! k = TaskPending \<and> ps ! k \<noteq> Stalls\<close> show ?thesis by simp
      next
        case False
        with j have "j \<in> set ks" by simp
        with m have "j < length ps" and "tasks[k := t] ! j = TaskPending" by simp_all
        with False show ?thesis by simp
      qed
    qed
    have p': "\<forall>j < length ps. tasks' ! j = TaskPending
                \<longleftrightarrow> tasks ! j = TaskPending \<and> j \<notin> set (k # ks)"
      using p t True Cons.prems by (auto simp: nth_list_update split: if_splits)
    have "fold (platform_step ps) (k # order) (acc, tasks)
            = (acc @ concat (map (\<lambda>k. pushed (ps ! k)) (k # ks)), tasks')"
      using f step by simp
    moreover have "distinct (k # ks)" using d knot by simp
    ultimately show ?thesis using l m' p' by blast
  next
    case False
    have step: "platform_step ps k (acc, tasks) = (acc, tasks)"
      using False by (cases "ps ! k") auto
    from Cons.IH [OF Cons.prems, of acc] step show ?thesis by simp
  qed
qed

text \<open>
  C10. In a report returned by \<open>validateManifest\<close>, the results of the common rule set are a
  prefix, followed by the results pushed by the platform tasks, each platform once, in the
  order in which they finished. The platform tasks start after the common rules have run:
  their events follow those of the common load and run.
\<close>

theorem common_results_first:
  assumes "snd (validateManifest K dirname rulesNode sch w pms platforms) = Resolved report"
  shows "\<exists>info rules common ps ks.
           w = Some info
         \<and> snd (loadValidationRules (path_join dirname ''validationRules'') None rulesNode)
             = Inr rules
         \<and> snd (runValidationRules info rules (commonOrder sch)) = Resolved common
         \<and> snd (start_platforms info platforms sch 0 pms) = Inr ps
         \<and> distinct ks \<and> set ks = {..< length ps}
         \<and> report = common @ concat (map (\<lambda>k. pushed (ps ! k)) ks)
         \<and> fst (validateManifest K dirname rulesNode sch w pms platforms)
             = fst (loadValidationRules (path_join dirname ''validationRules'') None rulesNode)
               @ fst (runValidationRules info rules (commonOrder sch))
               @ fst (start_platforms info platforms sch 0 pms)"
proof -
  let ?dir = "path_join dirname ''validationRules''"
  from assms obtain info where w: "w = Some info" and c: "content info \<noteq> None"
    and fmt: "format info = BASE_MANIFEST_FORMAT K"
    by (cases w) (auto simp: validateManifest_def split: if_splits)
  obtain ev1 l where ld: "loadValidationRules ?dir None rulesNode = (ev1, l)"
    by (cases "loadValidationRules ?dir None rulesNode")
  with assms w c fmt obtain rules where l: "l = Inr rules"
    by (cases l) (auto simp: validateManifest_def)
  obtain ev2 r where run: "runValidationRules info rules (commonOrder sch) = (ev2, r)"
    by (cases "runValidationRules info rules (commonOrder sch)")
  with assms w c fmt ld l obtain common where r: "r = Resolved common"
    by (cases r) (auto simp: validateManifest_def)
  obtain ev3 s where sp: "start_platforms info platforms sch 0 pms = (ev3, s)"
    by (cases "start_platforms info platforms sch 0 pms")
  with assms w c fmt ld l run r obtain ps where s: "s = Inr ps"
    by (cases s) (auto simp: validateManifest_def)
  from fold_platform_step [of "replicate (length ps) TaskPending" ps "settleOrder sch" common]
  obtain ks tasks' where
    f: "fold (platform_step ps) (settleOrder sch) (common, replicate (length ps) TaskPending)
          = (common @ concat (map (\<lambda>k. pushed (ps ! k)) ks), tasks')"
    and d: "distinct ks" and len: "length tasks' = length ps"
    and m: "\<forall>k \<in> set ks. k < length ps \<and> replicate (length ps) TaskPending ! k = TaskPending"
    and p: "\<forall>j < length ps. tasks' ! j = TaskPending
              \<longleftrightarrow> replicate (length ps) TaskPending ! j = TaskPending \<and> j \<notin> set ks"
    by auto
  from assms w c fmt ld l run r sp s f
  have res: "TaskPending \<notin> set tasks'"
    and rep: "report = common @ concat (map (\<lambda>k. pushed (ps ! k)) ks)"
    and evs: "fst (validateManifest K dirname rulesNode sch w pms platforms) = ev1 @ ev2 @ ev3"
    by (auto simp: validateManifest_def split: if_splits)
  have "set ks = {..< length ps}"
  proof
    show "set ks \<subseteq> {..< length ps}" using m by auto
    show "{..< length ps} \<subseteq> set ks"
    proof
      fix j assume "j \<in> {..< length ps}"
      then have j: "j < length ps" by simp
      with res len have "tasks' ! j \<noteq> TaskPending" by (metis nth_mem)
      with p j show "j \<in> set ks" by simp
    qed
  qed
  with w ld l run r sp s d rep evs show ?thesis by auto
qed

theorem common_results_first_witness:
  "snd (validateManifest sample_constants ''lib'' sample_rules_dir sample_scheduling
          (Some sample_info) sample_platform_modules [''android''])
     = Resolved [Obj 1, Obj 11, Obj 10]
   \<and> (\<exists>info rules common ps ks.
         Some sample_info = Some info
       \<and> snd (loadValidationRules (path_join ''lib'' ''validationRules'') None sample_rules_dir)
           = Inr rules
       \<and> snd (runValidationRules info rules (commonOrder sample_scheduling)) = Resolved common
       \<and> snd (start_platforms info [''android''] sample_scheduling 0 sample_platform_modules)
           = Inr ps
       \<and> distinct ks \<and> set ks = {..< length ps}
       \<and> [Obj 1, Obj 11, Obj 10] = common @ concat (map (\<lambda>k. pushed (ps ! k)) ks)
       \<and> fst (validateManifest sample_constants ''lib'' sample_rules_dir sample_scheduling
                 (Some sample_info) sample_platform_modules [''android''])
           = fst (loadValidationRules (path_join ''lib'' ''validationRules'') None
                    sample_rules_dir)
             @ fst (runValidationRules info rules (commonOrder sample_scheduling))
             @ fst (start_platforms info [''android''] sample_scheduling 0
                      sample_platform_modules))"
proof -
  have h: "snd (validateManifest sample_constants ''lib'' sample_rules_dir sample_scheduling
                  (Some sample_info) sample_platform_modules [''android''])
             = Resolved [Obj 1, Obj 11, Obj 10]"
    by (simp add: validateManifest_def sample_constants_def sample_rules_dir_def
          sample_scheduling_def sample_info_def sample_platform_modules_def
          loadValidationRules_Dir entry_task_def runValidationRules_def settle_def path_join_def)
  from h common_results_first [OF h] show ?thesis by (rule conjI)
qed

text \<open>
  C2. The preconditions are checked in order and each short-circuits. A missing document or
  a missing content is rejected with the empty-document error; a document that passes that
  check and whose format differs from the base format is rejected with the format-mismatch
  error. In both cases nothing else happens: no directory is read, no module is loaded, no
  rule is invoked.
\<close>

theorem preconditions_reject:
  "((w = None \<or> (\<exists>info. w = Some info \<and> content info = None))
      \<longrightarrow> validateManifest K dirname rulesNode sch w pms platforms
            = ([], Rejected ''Manifest content is empty or invalid.''))
   \<and> (\<forall>info. w = Some info \<and> content info \<noteq> None \<and> format info \<noteq> BASE_MANIFEST_FORMAT K
      \<longrightarrow> validateManifest K dirname rulesNode sch w pms platforms
            = ([], Rejected ''The manifest passed as argument is not a W3C manifest.''))"
  by (auto simp: validateManifest_def)

theorem preconditions_reject_witness:
  "validateManifest sample_constants ''lib'' (Dir [])
      \<lparr>commonOrder = [], platformOrder = (\<lambda>k. []), settleOrder = []\<rparr>
      (None :: manifestContent option w3cManifestInfo option) [] []
     = ([], Rejected ''Manifest content is empty or invalid.''
              :: validationResult jsval list outcome)
   \<and> validateManifest sample_constants ''lib'' (Dir [])
      \<lparr>commonOrder = [], platformOrder = (\<lambda>k. []), settleOrder = []\<rparr>
      (Some \<lparr>content = Some \<lparr>icons = None\<rparr>, format = ''other''\<rparr>) [] []
     = ([], Rejected ''The manifest passed as argument is not a W3C manifest.''
              :: validationResult jsval list outcome)"
  using preconditions_reject [of "None :: manifestContent option w3cManifestInfo option"
          sample_constants "''lib''" "Dir []"
          "\<lparr>commonOrder = [], platformOrder = (\<lambda>k. []), settleOrder = []\<rparr>" "[]" "[]"]
        preconditions_reject [of "Some \<lparr>content = Some \<lparr>icons = None\<rparr>, format = ''other''\<rparr>"
          sample_constants "''lib''" "Dir []"
          "\<lparr>commonOrder = [], platformOrder = (\<lambda>k. []), settleOrder = []\<rparr>" "[]" "[]"]
  by (simp add: sample_constants_def)

text \<open>
  C3. \<open>validateManifest\<close> at a built-in rule directory with a platform folder
  \<^verbatim>\<open>android\<close> and \<open>platforms = ["android"]\<close>: the loader is called without a platform
  filter, the folder's task fails on \<^verbatim>\<open>platforms.indexOf\<close>, the failure is logged, and the
  rule of \<^verbatim>\<open>android/b.js\<close> is neither loaded nor run. Loading the same directory with the
  caller's platforms as the filter yields both rules.
\<close>

theorem common_rules_ignore_platforms:
  "validateManifest sample_constants ''lib'' sample_rules_dir sample_scheduling
      (Some sample_info) [] [''android'']
     = ([ReadDir ''lib/validationRules'', Require ''lib/validationRules/a.js'',
         ConsoleLog ''Cannot read property 'indexOf' of undefined'', RuleCall 0],
        Resolved [Obj 1])
   \<and> length (rules_of (loadValidationRules ''lib/validationRules'' (Some [''android''])
               sample_rules_dir)) = 2"
  by (simp add: validateManifest_def sample_constants_def sample_rules_dir_def
        sample_scheduling_def sample_info_def loadValidationRules_Dir
        entry_task_def runValidationRules_def settle_def path_join_def indexOf_def)

end
